theory Spec2Isabelle
  imports Complex_Main "HOL-Library.Word"
begin

section \<open>SIFT feature matching (src/feature/sift.cc)\<close>

text \<open>
  A shallow embedding of the matching core of \<^verbatim>\<open>sift.cc\<close>: the descriptor reordering
  \<^verbatim>\<open>TransformVLFeatToUBCFeatureDescriptors\<close>, the distance matrix
  \<^verbatim>\<open>ComputeSiftDistanceMatrix\<close>, the selectors \<^verbatim>\<open>FindBestMatchesOneWay\<close> and
  \<^verbatim>\<open>FindBestMatches\<close>, the option check \<^verbatim>\<open>SiftMatchingOptions::Check\<close> and the two
  CPU matchers.

  Conventions of the embedding.
  \<^item> \<^verbatim>\<open>uint8_t\<close> descriptor entries are \<open>8 word\<close>; the \<^verbatim>\<open>int\<close> dot product of the
    distance matrix is computed in \<open>32 word\<close> (read back with \<open>sint\<close>), so wrap-around is modelled.
    The selectors only compare and copy matrix entries, so an entry that has been stored
    is held as its \<open>sint\<close> value, an \<open>int\<close>.
  \<^item> \<^verbatim>\<open>float\<close> values (thresholds, keypoint positions, angles, the matrices F and H) are
    real numbers, and in \<open>match_row\<close> and in the two guided filters float arithmetic is
    exact real arithmetic with \<^verbatim>\<open>std::acos\<close> as \<open>arccos\<close>: rounding, overflow and NaN are
    not part of these definitions. The one-way selector is therefore given a second time,
    as \<open>FindBestMatchesOneWay_f32\<close>, with the float operations as parameters, for a
    statement that has to hold under rounding. Of the two guided filters only the choice
    between them is used below, never their values; a division whose divisor may be zero
    is written out there with its IEEE outcome (infinity or NaN).
  \<^item> A failed \<^verbatim>\<open>CHECK\<close> aborts the process: the function returns \<open>None\<close>.
  \<^item> Sizes and loop indices (\<^verbatim>\<open>size_t\<close>, \<^verbatim>\<open>Eigen::Index\<close>) are \<open>nat\<close>; a column index
    stored in an \<^verbatim>\<open>int\<close> (with -1 for "no match") is an \<open>int\<close>. Matrices are taken to have
    fewer than \<open>2^31\<close> rows and columns, so these conversions do not truncate.
\<close>

subsection \<open>Data model\<close>

text \<open>
  \<^verbatim>\<open>FeatureDescriptors\<close> is a row-major byte matrix with a dynamic number of rows and
  exactly 128 columns: a list of rows. The column count is part of the C++ type; here it
  is the predicate \<open>descriptors_ok\<close>.
\<close>

type_synonym FeatureDescriptor = "8 word list"

type_synonym FeatureDescriptors = "FeatureDescriptor list"

definition descriptors_ok :: "FeatureDescriptors \<Rightarrow> bool" where
  "descriptors_ok ds = list_all (\<lambda>d. length d = 128) ds"

text \<open>
  Modelled from the spec: the keypoint type (\<^verbatim>\<open>FeatureKeypoint\<close> is declared in a header
  that is not part of the source file). A keypoint has a position, a scale and an
  orientation; the code of this file reads the position only.
\<close>

record FeatureKeypoint =
  kp_x :: real
  kp_y :: real
  kp_scale :: real
  kp_orientation :: real

type_synonym FeatureKeypoints = "FeatureKeypoint list"

text \<open>
  \<^verbatim>\<open>Eigen::MatrixXi\<close>: the two dimensions and the coefficient access \<^verbatim>\<open>dists(i, j)\<close>.
\<close>

record MatrixXi =
  rows :: nat
  cols :: nat
  coeff :: "nat \<Rightarrow> nat \<Rightarrow> int"

definition set_coeff :: "MatrixXi \<Rightarrow> nat \<Rightarrow> nat \<Rightarrow> int \<Rightarrow> MatrixXi" where
  "set_coeff m i j v = m\<lparr>coeff := (coeff m)(i := (coeff m i)(j := v))\<rparr>"

definition transpose_m :: "MatrixXi \<Rightarrow> MatrixXi" where
  "transpose_m m = \<lparr>rows = cols m, cols = rows m, coeff = (\<lambda>i j. coeff m j i)\<rparr>"

text \<open>A row-major list of rows, read as a matrix (used to write down concrete inputs).\<close>

definition matrix_of :: "nat \<Rightarrow> nat \<Rightarrow> int list list \<Rightarrow> MatrixXi" where
  "matrix_of r c xss = \<lparr>rows = r, cols = c, coeff = (\<lambda>i j. xss ! i ! j)\<rparr>"

text \<open>\<^verbatim>\<open>FeatureMatch\<close>: a pair of indices, one into each image's feature list.\<close>

record FeatureMatch =
  point2D_idx1 :: nat
  point2D_idx2 :: nat

type_synonym FeatureMatches = "FeatureMatch list"

type_synonym Vector3f = "real \<times> real \<times> real"

type_synonym Matrix3f = "Vector3f \<times> Vector3f \<times> Vector3f"

text \<open>
  Modelled from the spec: the classification tag of a two-view geometry (the enum of
  \<^verbatim>\<open>TwoViewGeometry\<close> is declared in a header that is not part of the source file). The
  five tags the code names, and \<open>UNDEFINED\<close> for "none".
\<close>

datatype ConfigurationType =
  UNDEFINED | CALIBRATED | UNCALIBRATED | PLANAR | PANORAMIC | PLANAR_OR_PANORAMIC

record TwoViewGeometry =
  config :: ConfigurationType
  F :: Matrix3f
  H :: Matrix3f
  inlier_matches :: FeatureMatches

text \<open>
  The fields of \<^verbatim>\<open>SiftMatchingOptions\<close> that this file reads. \<open>gpu_index\<close> holds the
  list that \<^verbatim>\<open>CSVToVector<int>\<close> parses from the option string.
\<close>

record SiftMatchingOptions =
  use_gpu :: bool
  gpu_index :: "int list"
  max_ratio :: real
  max_distance :: real
  cross_check :: bool
  max_error :: real
  min_num_trials :: int
  max_num_trials :: int
  min_inlier_ratio :: real
  min_num_inliers :: int

subsection \<open>Descriptor reordering\<close>

text \<open>
  \<^verbatim>\<open>TransformVLFeatToUBCFeatureDescriptors\<close>. The three inner loops write every column
  of the fresh row \<^verbatim>\<open>ubc_descriptors(n, _)\<close>, which starts here as 128 zeros.
\<close>

definition ubc_q :: "nat list" where
  "ubc_q = [0, 7, 6, 5, 4, 3, 2, 1]"

definition ubc_row :: "FeatureDescriptor \<Rightarrow> FeatureDescriptor" where
  "ubc_row v =
     fold (\<lambda>i. fold (\<lambda>j. fold (\<lambda>k u. u[8 * (j + 4 * i) + ubc_q ! k := v ! (8 * (j + 4 * i) + k)])
                              [0..<8])
                    [0..<4])
          [0..<4] (replicate 128 0)"

definition TransformVLFeatToUBCFeatureDescriptors :: "FeatureDescriptors \<Rightarrow> FeatureDescriptors" where
  "TransformVLFeatToUBCFeatureDescriptors vlfeat_descriptors = map ubc_row vlfeat_descriptors"

subsection \<open>Distance matrix\<close>

text \<open>
  \<^verbatim>\<open>descriptors1_int.row(i1).dot(descriptors2_int.row(i2))\<close>: both rows are cast to
  \<^verbatim>\<open>int\<close> and the products are summed in \<^verbatim>\<open>int\<close>.
\<close>

definition row_dot :: "FeatureDescriptor \<Rightarrow> FeatureDescriptor \<Rightarrow> 32 word" where
  "row_dot a b = sum_list (map2 (\<lambda>p q. ucast p * ucast q) a b)"

text \<open>
  The two loops of \<^verbatim>\<open>ComputeSiftDistanceMatrix\<close>. \<open>rejected i1 i2\<close> is the condition
  \<^verbatim>\<open>guided_filter != nullptr && guided_filter(...)\<close> of the cell.
\<close>

definition fill_dists ::
  "(nat \<Rightarrow> nat \<Rightarrow> bool) \<Rightarrow> FeatureDescriptors \<Rightarrow> FeatureDescriptors \<Rightarrow> MatrixXi" where
  "fill_dists rejected descriptors1 descriptors2 =
     fold (\<lambda>i1. fold (\<lambda>i2 dists.
                        set_coeff dists i1 i2
                          (if rejected i1 i2 then 0
                           else sint (row_dot (descriptors1 ! i1) (descriptors2 ! i2))))
                     [0..<length descriptors2])
          [0..<length descriptors1]
          \<lparr>rows = length descriptors1, cols = length descriptors2, coeff = (\<lambda>i j. 0)\<rparr>"

type_synonym guided_filter = "real \<Rightarrow> real \<Rightarrow> real \<Rightarrow> real \<Rightarrow> bool"

definition ComputeSiftDistanceMatrix ::
  "FeatureKeypoints option \<Rightarrow> FeatureKeypoints option \<Rightarrow> FeatureDescriptors \<Rightarrow>
   FeatureDescriptors \<Rightarrow> guided_filter option \<Rightarrow> MatrixXi option" where
  "ComputeSiftDistanceMatrix keypoints1 keypoints2 descriptors1 descriptors2 filter_opt =
     (case filter_opt of
        None \<Rightarrow> Some (fill_dists (\<lambda>i1 i2. False) descriptors1 descriptors2)
      | Some gf \<Rightarrow>
          (case keypoints1 of
             None \<Rightarrow> None
           | Some k1 \<Rightarrow>
               (case keypoints2 of
                  None \<Rightarrow> None
                | Some k2 \<Rightarrow>
                    if length k1 = length descriptors1 \<and> length k2 = length descriptors2
                    then Some (fill_dists
                                 (\<lambda>i1 i2. gf (kp_x (k1 ! i1)) (kp_y (k1 ! i1))
                                              (kp_x (k2 ! i2)) (kp_y (k2 ! i2)))
                                 descriptors1 descriptors2)
                    else None)))"

subsection \<open>One-way selection\<close>

text \<open>
  The inner loop of \<^verbatim>\<open>FindBestMatchesOneWay\<close> over the columns of row \<open>i1\<close>. The state
  is \<open>(best_i2, best_dist, second_best_dist)\<close>.
\<close>

definition scan_step :: "MatrixXi \<Rightarrow> nat \<Rightarrow> nat \<Rightarrow> int \<times> int \<times> int \<Rightarrow> int \<times> int \<times> int" where
  "scan_step dists i1 i2 s =
     (case s of (best_i2, best_dist, second_best_dist) \<Rightarrow>
        let dist = coeff dists i1 i2 in
        if dist > best_dist then (int i2, dist, best_dist)
        else if dist > second_best_dist then (best_i2, best_dist, dist)
        else (best_i2, best_dist, second_best_dist))"

definition scan_row :: "MatrixXi \<Rightarrow> nat \<Rightarrow> int \<times> int \<times> int" where
  "scan_row dists i1 = fold (scan_step dists i1) [0..<cols dists] (- 1, 0, 0)"

definition kDistNorm :: real where
  "kDistNorm = 1 / (512 * 512)"

text \<open>The body of the outer loop: the state is \<open>(num_matches, matches)\<close>.\<close>

definition match_row ::
  "MatrixXi \<Rightarrow> real \<Rightarrow> real \<Rightarrow> nat \<Rightarrow> nat \<times> int list \<Rightarrow> nat \<times> int list" where
  "match_row dists max_ratio' max_distance' i1 st =
     (case st of (num_matches, matches) \<Rightarrow>
        (case scan_row dists i1 of (best_i2, best_dist, second_best_dist) \<Rightarrow>
           if best_i2 = - 1 then (num_matches, matches)
           else
             let best_dist_normed = arccos (min (kDistNorm * real_of_int best_dist) 1) in
             if best_dist_normed > max_distance' then (num_matches, matches)
             else
               let second_best_dist_normed =
                     arccos (min (kDistNorm * real_of_int second_best_dist) 1) in
               if best_dist_normed \<ge> max_ratio' * second_best_dist_normed
               then (num_matches, matches)
               else (num_matches + 1, matches[i1 := best_i2])))"

text \<open>\<^verbatim>\<open>std::vector::resize(n, v)\<close>: keeps the first \<open>n\<close> elements, pads with \<open>v\<close>.\<close>

definition resize :: "'a list \<Rightarrow> nat \<Rightarrow> 'a \<Rightarrow> 'a list" where
  "resize xs n v = take n xs @ replicate (n - length xs) v"

definition FindBestMatchesOneWay ::
  "MatrixXi \<Rightarrow> real \<Rightarrow> real \<Rightarrow> int list \<Rightarrow> nat \<times> int list" where
  "FindBestMatchesOneWay dists max_ratio' max_distance' matches =
     fold (match_row dists max_ratio' max_distance') [0..<rows dists]
          (0, resize matches (rows dists) (- 1))"

subsection \<open>One-way selection, with the single-precision operations as parameters\<close>

text \<open>
  The thresholds and angles of \<^verbatim>\<open>FindBestMatchesOneWay\<close> are \<^verbatim>\<open>float\<close> values. Here
  the float type is a type variable and the operations the function applies to floats are
  parameters: the conversion of an \<^verbatim>\<open>int\<close>, the product, the comparisons \<^verbatim>\<open><\<close> and
  \<^verbatim>\<open><=\<close>, \<^verbatim>\<open>std::acos\<close>, and the constants \<^verbatim>\<open>kDistNorm\<close> and \<^verbatim>\<open>1.0f\<close>. Nothing is assumed
  about them, so a statement about \<open>FindBestMatchesOneWay_f32\<close> holds whatever rounding,
  infinities and NaNs the operations produce. \<^verbatim>\<open>a > b\<close> is \<open>f_lt b a\<close> and \<^verbatim>\<open>a >= b\<close> is
  \<open>f_le b a\<close>; \<^verbatim>\<open>std::min(a, b)\<close> returns \<open>b\<close> if \<open>b < a\<close> and \<open>a\<close> otherwise.
\<close>

record 'f binary32_ops =
  f_of_int :: "int \<Rightarrow> 'f"
  f_mul :: "'f \<Rightarrow> 'f \<Rightarrow> 'f"
  f_lt :: "'f \<Rightarrow> 'f \<Rightarrow> bool"
  f_le :: "'f \<Rightarrow> 'f \<Rightarrow> bool"
  f_acos :: "'f \<Rightarrow> 'f"
  f_kDistNorm :: "'f"
  f_one :: "'f"

definition std_min :: "'f binary32_ops \<Rightarrow> 'f \<Rightarrow> 'f \<Rightarrow> 'f" where
  "std_min ops a b = (if f_lt ops b a then b else a)"

definition dist_normed :: "'f binary32_ops \<Rightarrow> int \<Rightarrow> 'f" where
  "dist_normed ops dv =
     f_acos ops (std_min ops (f_mul ops (f_kDistNorm ops) (f_of_int ops dv)) (f_one ops))"

definition match_row_f32 ::
  "'f binary32_ops \<Rightarrow> MatrixXi \<Rightarrow> 'f \<Rightarrow> 'f \<Rightarrow> nat \<Rightarrow> nat \<times> int list \<Rightarrow> nat \<times> int list" where
  "match_row_f32 ops dists max_ratio' max_distance' i1 st =
     (case st of (num_matches, matches) \<Rightarrow>
        (case scan_row dists i1 of (best_i2, best_dist, second_best_dist) \<Rightarrow>
           if best_i2 = - 1 then (num_matches, matches)
           else
             let best_dist_normed = dist_normed ops best_dist in
             if f_lt ops max_distance' best_dist_normed then (num_matches, matches)
             else
               let second_best_dist_normed = dist_normed ops second_best_dist in
               if f_le ops (f_mul ops max_ratio' second_best_dist_normed) best_dist_normed
               then (num_matches, matches)
               else (num_matches + 1, matches[i1 := best_i2])))"

definition FindBestMatchesOneWay_f32 ::
  "'f binary32_ops \<Rightarrow> MatrixXi \<Rightarrow> 'f \<Rightarrow> 'f \<Rightarrow> int list \<Rightarrow> nat \<times> int list" where
  "FindBestMatchesOneWay_f32 ops dists max_ratio' max_distance' matches =
     fold (match_row_f32 ops dists max_ratio' max_distance') [0..<rows dists]
          (0, resize matches (rows dists) (- 1))"

subsection \<open>Bidirectional matching\<close>

text \<open>
  \<^verbatim>\<open>FindBestMatches\<close> clears its output vector first, so the result does not depend on
  what the vector held; \<open>matches12\<close> and \<open>matches21\<close> start empty.
\<close>

definition push_cross :: "int list \<Rightarrow> int list \<Rightarrow> nat \<Rightarrow> FeatureMatches \<Rightarrow> FeatureMatches" where
  "push_cross matches12 matches21 i1 ms =
     (if matches12 ! i1 \<noteq> - 1 \<and> matches21 ! nat (matches12 ! i1) \<noteq> - 1 \<and>
         matches21 ! nat (matches12 ! i1) = int i1
      then ms @ [\<lparr>point2D_idx1 = i1, point2D_idx2 = nat (matches12 ! i1)\<rparr>]
      else ms)"

definition push_forward :: "int list \<Rightarrow> nat \<Rightarrow> FeatureMatches \<Rightarrow> FeatureMatches" where
  "push_forward matches12 i1 ms =
     (if matches12 ! i1 \<noteq> - 1
      then ms @ [\<lparr>point2D_idx1 = i1, point2D_idx2 = nat (matches12 ! i1)\<rparr>]
      else ms)"

definition FindBestMatches :: "MatrixXi \<Rightarrow> real \<Rightarrow> real \<Rightarrow> bool \<Rightarrow> FeatureMatches" where
  "FindBestMatches dists max_ratio' max_distance' cross_check' =
     (let matches12 = snd (FindBestMatchesOneWay dists max_ratio' max_distance' []) in
      if cross_check' then
        let matches21 =
              snd (FindBestMatchesOneWay (transpose_m dists) max_ratio' max_distance' [])
        in fold (push_cross matches12 matches21) [0..<length matches12] []
      else fold (push_forward matches12) [0..<length matches12] [])"

subsection \<open>Options and the CPU matchers\<close>

definition Check :: "SiftMatchingOptions \<Rightarrow> bool" where
  "Check opts =
     ((if use_gpu opts then length (gpu_index opts) > 0 else True) \<and>
      max_ratio opts > 0 \<and> max_distance opts > 0 \<and> max_error opts > 0 \<and>
      min_num_trials opts \<ge> 0 \<and> max_num_trials opts > 0 \<and>
      min_num_trials opts \<le> max_num_trials opts \<and>
      min_inlier_ratio opts \<ge> 0 \<and> min_inlier_ratio opts \<le> 1 \<and>
      min_num_inliers opts \<ge> 0)"

definition MatchSiftFeaturesCPU ::
  "SiftMatchingOptions \<Rightarrow> FeatureDescriptors \<Rightarrow> FeatureDescriptors \<Rightarrow> FeatureMatches option" where
  "MatchSiftFeaturesCPU match_options descriptors1 descriptors2 =
     (if \<not> Check match_options then None
      else
        (case ComputeSiftDistanceMatrix None None descriptors1 descriptors2 None of
           None \<Rightarrow> None
         | Some dists \<Rightarrow>
             Some (FindBestMatches dists (max_ratio match_options)
                     (max_distance match_options) (cross_check match_options))))"

text \<open>\<^verbatim>\<open>Eigen\<close>'s product of a 3x3 matrix with a vector, the transpose, the dot product.\<close>

definition mat_vec :: "Matrix3f \<Rightarrow> Vector3f \<Rightarrow> Vector3f" where
  "mat_vec M p =
     (case M of ((a, b, c), (d, e, f), (g, h, i)) \<Rightarrow>
        (case p of (x, y, z) \<Rightarrow>
           (a * x + b * y + c * z, d * x + e * y + f * z, g * x + h * y + i * z)))"

definition transpose3 :: "Matrix3f \<Rightarrow> Matrix3f" where
  "transpose3 M =
     (case M of ((a, b, c), (d, e, f), (g, h, i)) \<Rightarrow> ((a, d, g), (b, e, h), (c, f, i)))"

definition dot3 :: "Vector3f \<Rightarrow> Vector3f \<Rightarrow> real" where
  "dot3 u v = (case u of (a, b, c) \<Rightarrow> (case v of (x, y, z) \<Rightarrow> a * x + b * y + c * z))"

definition v0 :: "Vector3f \<Rightarrow> real" where
  "v0 u = fst u"

definition v1 :: "Vector3f \<Rightarrow> real" where
  "v1 u = fst (snd u)"

definition v2 :: "Vector3f \<Rightarrow> real" where
  "v2 u = snd (snd u)"

text \<open>
  The float comparison \<^verbatim>\<open>a / b > r\<close> for finite \<open>a\<close>, \<open>b\<close>, \<open>r\<close>: when \<open>b\<close> is zero the
  quotient is +infinity for positive \<open>a\<close> (greater than every \<open>r\<close>), -infinity for
  negative \<open>a\<close> and NaN for zero \<open>a\<close> (both compare false).
\<close>

definition quotient_gt :: "real \<Rightarrow> real \<Rightarrow> real \<Rightarrow> bool" where
  "quotient_gt a b r = (if b = 0 then a > 0 else a / b > r)"

text \<open>
  The lambda of the CALIBRATED / UNCALIBRATED branch, in exact arithmetic. The code
  evaluates it in single precision, where the products can round and overflow.
\<close>

definition epipolar_filter :: "Matrix3f \<Rightarrow> real \<Rightarrow> guided_filter" where
  "epipolar_filter Fm max_residual x1 y1 x2 y2 =
     (let p1 = (x1, y1, 1);
          p2 = (x2, y2, 1);
          Fx1 = mat_vec Fm p1;
          Ftx2 = mat_vec (transpose3 Fm) p2;
          x2tFx1 = dot3 p2 Fx1
      in quotient_gt (x2tFx1 * x2tFx1)
           (v0 Fx1 * v0 Fx1 + v1 Fx1 * v1 Fx1 + v0 Ftx2 * v0 Ftx2 + v1 Ftx2 * v1 Ftx2)
           max_residual)"

text \<open>
  The lambda of the PLANAR / PANORAMIC / PLANAR_OR_PANORAMIC branch. \<^verbatim>\<open>hnormalized\<close>
  divides the first two coordinates by the third. When the third is zero, a nonzero
  coordinate becomes infinite and a zero one NaN: the squared norm is +infinity if both
  are nonzero and NaN otherwise.
\<close>

definition homography_filter :: "Matrix3f \<Rightarrow> real \<Rightarrow> guided_filter" where
  "homography_filter Hm max_residual x1 y1 x2 y2 =
     (let p1 = (x1, y1, 1);
          Hp1 = mat_vec Hm p1
      in if v2 Hp1 = 0 then v0 Hp1 \<noteq> 0 \<and> v1 Hp1 \<noteq> 0
         else (v0 Hp1 / v2 Hp1 - x2) * (v0 Hp1 / v2 Hp1 - x2) +
              (v1 Hp1 / v2 Hp1 - y2) * (v1 Hp1 / v2 Hp1 - y2) > max_residual)"

text \<open>
  The choice of the guided filter in \<^verbatim>\<open>MatchGuidedSiftFeaturesCPU\<close>; \<open>None\<close> is the
  final \<^verbatim>\<open>else\<close> branch, which returns. The function takes the two-view geometry by
  pointer and checks it for null first; here the geometry is always present.
\<close>

definition select_guided_filter :: "TwoViewGeometry \<Rightarrow> real \<Rightarrow> guided_filter option" where
  "select_guided_filter g max_residual =
     (if config g = CALIBRATED \<or> config g = UNCALIBRATED
      then Some (epipolar_filter (F g) max_residual)
      else if config g = PLANAR \<or> config g = PANORAMIC \<or> config g = PLANAR_OR_PANORAMIC
      then Some (homography_filter (H g) max_residual)
      else None)"

definition MatchGuidedSiftFeaturesCPU ::
  "SiftMatchingOptions \<Rightarrow> FeatureKeypoints \<Rightarrow> FeatureKeypoints \<Rightarrow> FeatureDescriptors \<Rightarrow>
   FeatureDescriptors \<Rightarrow> TwoViewGeometry \<Rightarrow> TwoViewGeometry option" where
  "MatchGuidedSiftFeaturesCPU match_options keypoints1 keypoints2 descriptors1 descriptors2
     two_view_geometry =
     (if \<not> Check match_options then None
      else
        let max_residual = max_error match_options * max_error match_options in
        (case select_guided_filter two_view_geometry max_residual of
           None \<Rightarrow> Some two_view_geometry
         | Some gf \<Rightarrow>
             (case ComputeSiftDistanceMatrix (Some keypoints1) (Some keypoints2)
                     descriptors1 descriptors2 (Some gf) of
                None \<Rightarrow> None
              | Some dists \<Rightarrow>
                  Some (two_view_geometry
                          \<lparr>inlier_matches :=
                             FindBestMatches dists (max_ratio match_options)
                               (max_distance match_options) (cross_check match_options)\<rparr>))))"

subsection \<open>Notions of the specification\<close>

text \<open>
  The integer dot product of two quantized descriptors, over the unbounded integers, and
  the squared L2 norm of a quantized descriptor.
\<close>

definition quantized :: "FeatureDescriptor \<Rightarrow> int list" where
  "quantized d = map uint d"

definition dot_product :: "int list \<Rightarrow> int list \<Rightarrow> int" where
  "dot_product a b = sum_list (map2 (*) a b)"

definition squared_norm :: "FeatureDescriptor \<Rightarrow> int" where
  "squared_norm d = dot_product (quantized d) (quantized d)"

text \<open>The source column of destination column \<open>m\<close> under the reordering.\<close>

definition ubc_source :: "nat \<Rightarrow> nat" where
  "ubc_source m = 8 * (m div 8) + ubc_q ! (m mod 8)"

text \<open>
  "A guided-filter predicate is supplied and returns true on the keypoint positions of the
  pair \<open>(i, j)\<close>".
\<close>

definition filter_rejects ::
  "guided_filter option \<Rightarrow> FeatureKeypoints option \<Rightarrow> FeatureKeypoints option \<Rightarrow>
   nat \<Rightarrow> nat \<Rightarrow> bool" where
  "filter_rejects filter_opt keypoints1 keypoints2 i j =
     (case filter_opt of
        None \<Rightarrow> False
      | Some gf \<Rightarrow>
          (case keypoints1 of
             None \<Rightarrow> False
           | Some k1 \<Rightarrow>
               (case keypoints2 of
                  None \<Rightarrow> False
                | Some k2 \<Rightarrow>
                    gf (kp_x (k1 ! i)) (kp_y (k1 ! i)) (kp_x (k2 ! j)) (kp_y (k2 ! j)))))"

text \<open>
  The angle of step 3 of the one-way selection, \<open>acos(min(1, dist / 512^2))\<close>, and the
  decision of the outer loop's body for row \<open>i1\<close>: the column that is stored in
  \<open>matches[i1]\<close>, or -1 when the body leaves the row unmatched.
\<close>

definition normed_angle :: "int \<Rightarrow> real" where
  "normed_angle dv = arccos (min (real_of_int dv / 262144) 1)"

definition row_result :: "MatrixXi \<Rightarrow> real \<Rightarrow> real \<Rightarrow> nat \<Rightarrow> int" where
  "row_result dists max_ratio' max_distance' i1 =
     (case scan_row dists i1 of (best_i2, best_dist, second_best_dist) \<Rightarrow>
        if best_i2 \<noteq> - 1 \<and> normed_angle best_dist \<le> max_distance' \<and>
           normed_angle best_dist < max_ratio' * normed_angle second_best_dist
        then best_i2 else - 1)"

text \<open>
  What the column scan has established after the first \<open>n\<close> columns of row \<open>i1\<close>: the
  best value bounds all columns seen, it is positive and sits at \<open>best_i2\<close> unless nothing
  positive was seen, and the second-best value is the largest of 0 and the other columns.
\<close>

definition scan_inv :: "MatrixXi \<Rightarrow> nat \<Rightarrow> nat \<Rightarrow> int \<times> int \<times> int \<Rightarrow> bool" where
  "scan_inv d i1 n st =
     (case st of (bi, b, s) \<Rightarrow>
        0 \<le> s \<and> s \<le> b \<and>
        (\<forall>j<n. coeff d i1 j \<le> b) \<and>
        ((bi = - 1 \<and> b = 0) \<or> (0 \<le> bi \<and> bi < int n \<and> coeff d i1 (nat bi) = b \<and> 0 < b)) \<and>
        (\<forall>j<n. int j \<noteq> bi \<longrightarrow> coeff d i1 j \<le> s) \<and>
        (s = 0 \<or> (\<exists>j<n. int j \<noteq> bi \<and> coeff d i1 j = s)))"

text \<open>A 2x2 distance matrix used to exercise the selectors.\<close>

definition example_dists :: MatrixXi where
  "example_dists = matrix_of 2 2 [[262144, 0], [131072, 0]]"

text \<open>Concrete inputs: two one-row matrices, matching options and a 3x3 zero matrix.\<close>

definition tie_dists :: MatrixXi where
  "tie_dists = matrix_of 1 2 [[131072, 131072]]"


definition example_options :: SiftMatchingOptions where
  "example_options =
     \<lparr>use_gpu = False, gpu_index = [], max_ratio = 4 / 5, max_distance = 7 / 10,
      cross_check = True, max_error = 4, min_num_trials = 30, max_num_trials = 10000,
      min_inlier_ratio = 1 / 4, min_num_inliers = 15\<rparr>"

text \<open>The exact operations on the reals, as one instance of the parameters.\<close>

definition exact_ops :: "real binary32_ops" where
  "exact_ops =
     \<lparr>f_of_int = real_of_int, f_mul = (*), f_lt = (<), f_le = (\<le>), f_acos = arccos,
      f_kDistNorm = kDistNorm, f_one = 1\<rparr>"

definition zero3 :: Matrix3f where
  "zero3 = ((0, 0, 0), (0, 0, 0), (0, 0, 0))"

section \<open>Descriptor reordering: the permutation is an involution\<close>

lemma ubc_row_explicit: "ubc_row v = map (\<lambda>m. v ! ubc_source m) [0..<128]"
  by code_simp

lemma ubc_source_table:
  "list_all (\<lambda>m. ubc_source m < 128 \<and> ubc_source (ubc_source m) = m) [0..<128]"
  by code_simp

lemma ubc_source_lt: "m < 128 \<Longrightarrow> ubc_source m < 128"
  using ubc_source_table by (simp add: list_all_iff)

lemma ubc_source_twice: "m < 128 \<Longrightarrow> ubc_source (ubc_source m) = m"
  using ubc_source_table by (simp add: list_all_iff)

lemma ubc_row_twice:
  assumes "length v = 128"
  shows "ubc_row (ubc_row v) = v"
proof -
  have "ubc_row (ubc_row v) = map (\<lambda>m. ubc_row v ! ubc_source m) [0..<128]"
    by (rule ubc_row_explicit)
  also have "\<dots> = map (\<lambda>m. v ! m) [0..<128]"
  proof (rule map_cong [OF refl])
    fix m assume "m \<in> set [0..<128]"
    then have m: "m < 128" by simp
    have "ubc_row v ! ubc_source m = map (\<lambda>m. v ! ubc_source m) [0..<128] ! ubc_source m"
      by (simp only: ubc_row_explicit [symmetric])
    also have "\<dots> = v ! ubc_source (ubc_source m)"
      using ubc_source_lt [OF m] by simp
    finally show "ubc_row v ! ubc_source m = v ! m"
      by (simp add: ubc_source_twice [OF m])
  qed
  also have "\<dots> = v"
    using assms map_nth [of v] by simp
  finally show ?thesis .
qed

lemma ubc_q_bijection: "distinct ubc_q \<and> set ubc_q = set [0..<8]"
  by code_simp

lemma Transform_twice:
  "descriptors_ok ds \<Longrightarrow>
   TransformVLFeatToUBCFeatureDescriptors (TransformVLFeatToUBCFeatureDescriptors ds) = ds"
  by (induction ds)
     (simp_all add: TransformVLFeatToUBCFeatureDescriptors_def descriptors_ok_def ubc_row_twice)

text \<open>
  Claim C5, as stated: some descriptor is not returned by applying the reordering twice.
  It is false: no descriptor set (rows of 128 entries) is changed by two applications.
\<close>

theorem ubc_twice_counterexample:
  "\<not> (\<exists>ds. descriptors_ok ds \<and>
         TransformVLFeatToUBCFeatureDescriptors (TransformVLFeatToUBCFeatureDescriptors ds) \<noteq> ds)"
  using Transform_twice by blast

text \<open>
  Claim C5, amended: the index map \<open>[0,7,6,5,4,3,2,1]\<close> is a bijection on the 8 bins and
  is its own inverse, so applying the reordering twice returns every descriptor set
  unchanged.
\<close>

theorem ubc_reordering_involution:
  "descriptors_ok ds \<Longrightarrow>
   distinct ubc_q \<and> set ubc_q = set [0..<8] \<and>
   map (\<lambda>k. ubc_q ! (ubc_q ! k)) [0..<8] = [0..<8] \<and>
   TransformVLFeatToUBCFeatureDescriptors (TransformVLFeatToUBCFeatureDescriptors ds) = ds"
proof -
  assume ok: "descriptors_ok ds"
  have "map (\<lambda>k. ubc_q ! (ubc_q ! k)) [0..<8] = [0..<8]" by code_simp
  then show ?thesis using ubc_q_bijection Transform_twice [OF ok] by simp
qed

theorem ubc_reordering_involution_witness:
  "descriptors_ok [map of_nat [0..<128]] \<and>
   TransformVLFeatToUBCFeatureDescriptors
     (TransformVLFeatToUBCFeatureDescriptors [map of_nat [0..<128]]) = [map of_nat [0..<128]]"
  using ubc_reordering_involution [of "[map of_nat [0..<128]]"]
  by (simp add: descriptors_ok_def)

section \<open>The distance matrix\<close>

lemma set_coeff_simps [simp]:
  "rows (set_coeff m i j v) = rows m"
  "cols (set_coeff m i j v) = cols m"
  "coeff (set_coeff m i j v) a b = (if a = i \<and> b = j then v else coeff m a b)"
  by (simp_all add: set_coeff_def)

lemma fill_row:
  "rows (fold (\<lambda>i2 dists. set_coeff dists i1 i2 (c i2)) [0..<n] m) = rows m \<and>
   cols (fold (\<lambda>i2 dists. set_coeff dists i1 i2 (c i2)) [0..<n] m) = cols m \<and>
   coeff (fold (\<lambda>i2 dists. set_coeff dists i1 i2 (c i2)) [0..<n] m) a b =
     (if a = i1 \<and> b < n then c b else coeff m a b)"
  by (induction n) (auto simp: less_Suc_eq)

lemma fill_rows:
  "rows (fold (\<lambda>i1. fold (\<lambda>i2 dists. set_coeff dists i1 i2 (c i1 i2)) [0..<n2]) [0..<n] m) = rows m \<and>
   cols (fold (\<lambda>i1. fold (\<lambda>i2 dists. set_coeff dists i1 i2 (c i1 i2)) [0..<n2]) [0..<n] m) = cols m \<and>
   coeff (fold (\<lambda>i1. fold (\<lambda>i2 dists. set_coeff dists i1 i2 (c i1 i2)) [0..<n2]) [0..<n] m) a b =
     (if a < n \<and> b < n2 then c a b else coeff m a b)"
  by (induction n) (auto simp: less_Suc_eq fill_row)

lemma fill_dists_simps:
  "rows (fill_dists rejected d1 d2) = length d1"
  "cols (fill_dists rejected d1 d2) = length d2"
  "coeff (fill_dists rejected d1 d2) i j =
     (if i < length d1 \<and> j < length d2
      then (if rejected i j then 0 else sint (row_dot (d1 ! i) (d2 ! j))) else 0)"
  unfolding fill_dists_def by (simp_all add: fill_rows)

lemma row_dot_word: "row_dot a b = word_of_int (dot_product (quantized a) (quantized b))"
proof (induction a arbitrary: b)
  case Nil
  then show ?case by (simp add: row_dot_def dot_product_def quantized_def)
next
  case (Cons p a)
  show ?case
  proof (cases b)
    case Nil
    then show ?thesis by (simp add: row_dot_def dot_product_def quantized_def)
  next
    case (Cons q b')
    have "row_dot (p # a) (q # b') = ucast p * ucast q + row_dot a b'"
      by (simp add: row_dot_def)
    also have "\<dots> = word_of_int (uint p) * word_of_int (uint q) +
                    word_of_int (dot_product (quantized a) (quantized b'))"
      by (simp only: Cons.IH ucast_eq)
    also have "\<dots> = word_of_int (uint p * uint q + dot_product (quantized a) (quantized b'))"
      by (simp only: of_int_mult of_int_add)
    finally show ?thesis using Cons by (simp add: dot_product_def quantized_def)
  qed
qed

lemma uint8_bounds: "0 \<le> uint (p :: 8 word) \<and> uint p \<le> 255"
  using uint_bounded [of p] by simp

lemma dot_product_bounds:
  "0 \<le> dot_product (quantized a) (quantized b) \<and>
   dot_product (quantized a) (quantized b) \<le> 65025 * int (length a)"
proof (induction a arbitrary: b)
  case Nil
  then show ?case by (simp add: dot_product_def quantized_def)
next
  case (Cons p a)
  show ?case
  proof (cases b)
    case Nil
    then show ?thesis by (simp add: dot_product_def quantized_def)
  next
    case (Cons q b')
    have pq: "0 \<le> uint p * uint q \<and> uint p * uint q \<le> 255 * 255"
      using uint8_bounds [of p] uint8_bounds [of q] mult_mono [of "uint p" 255 "uint q" 255]
      by simp
    have "dot_product (quantized (p # a)) (quantized b) =
          uint p * uint q + dot_product (quantized a) (quantized b')"
      using Cons by (simp add: dot_product_def quantized_def)
    then show ?thesis using pq Cons.IH [of b'] by simp
  qed
qed

lemma sint_row_dot:
  assumes "length a = 128"
  shows "sint (row_dot a b) = dot_product (quantized a) (quantized b)"
proof -
  let ?k = "dot_product (quantized a) (quantized b)"
  have "0 \<le> ?k" "?k \<le> 8323200"
    using dot_product_bounds [of a b] assms by simp_all
  then have "sint (word_of_int ?k :: 32 word) = ?k"
    by (simp add: sint_sbintrunc' signed_take_bit_int_eq_self)
  then show ?thesis by (simp add: row_dot_word)
qed


lemma descriptors_ok_nth: "descriptors_ok ds \<Longrightarrow> i < length ds \<Longrightarrow> length (ds ! i) = 128"
  by (simp add: descriptors_ok_def list_all_length)

lemma ComputeSiftDistanceMatrix_coeff:
  assumes "ComputeSiftDistanceMatrix kp1 kp2 d1 d2 gf = Some m"
    and "descriptors_ok d1" and "i < length d1" and "j < length d2"
  shows "rows m = length d1 \<and> cols m = length d2 \<and>
         coeff m i j = (if filter_rejects gf kp1 kp2 i j then 0
                        else dot_product (quantized (d1 ! i)) (quantized (d2 ! j)))"
  using assms
  by (auto simp: ComputeSiftDistanceMatrix_def filter_rejects_def fill_dists_simps
        sint_row_dot descriptors_ok_nth split: option.splits if_splits)


lemma two_prod_le: "2 * (x * y) \<le> x * x + y * (y::int)"
proof -
  have "0 \<le> (x - y) * (x - y)" by simp
  then show ?thesis by (simp add: algebra_simps)
qed

lemma two_prod_eq: "2 * (x * y) = x * x + y * (y::int) \<Longrightarrow> x = y"
proof -
  assume "2 * (x * y) = x * x + y * y"
  then have "(x - y) * (x - y) = 0" by (simp add: algebra_simps)
  then show "x = y" by simp
qed

lemma dot_le_norms:
  "length a = length b \<Longrightarrow> 2 * dot_product a b \<le> dot_product a a + dot_product b b"
proof (induction a b rule: list_induct2)
  case Nil
  then show ?case by (simp add: dot_product_def)
next
  case (Cons x xs y ys)
  then show ?case using two_prod_le [of x y] by (simp add: dot_product_def)
qed

lemma dot_eq_norms:
  "length a = length b \<Longrightarrow> 2 * dot_product a b = dot_product a a + dot_product b b \<Longrightarrow> a = b"
proof (induction a b rule: list_induct2)
  case Nil
  then show ?case by simp
next
  case (Cons x xs y ys)
  have 1: "2 * (x * y) \<le> x * x + y * y" by (rule two_prod_le)
  have 2: "2 * dot_product xs ys \<le> dot_product xs xs + dot_product ys ys"
    using Cons.hyps by (rule dot_le_norms)
  have 3: "2 * (x * y) + 2 * dot_product xs ys =
           (x * x + y * y) + (dot_product xs xs + dot_product ys ys)"
    using Cons.prems by (simp add: dot_product_def)
  from 1 2 3 have "2 * (x * y) = x * x + y * y"
    and "2 * dot_product xs ys = dot_product xs xs + dot_product ys ys" by linarith+
  then show ?case using Cons.IH two_prod_eq [of x y] by simp
qed

lemma quantized_inj: "quantized a = quantized b \<Longrightarrow> a = b"
  unfolding quantized_def by (erule map_injective) (rule injI, simp add: word_uint_eq_iff)

lemma dot_bounded_by_norms:
  assumes "length a = 128" and "length b = 128"
    and "squared_norm a \<le> 262144" and "squared_norm b \<le> 262144"
  shows "dot_product (quantized a) (quantized b) \<le> 262144"
    and "dot_product (quantized a) (quantized b) = 262144 \<Longrightarrow> a = b \<and> squared_norm a = 262144"
proof -
  have len: "length (quantized a) = length (quantized b)"
    using assms by (simp add: quantized_def)
  have le: "2 * dot_product (quantized a) (quantized b) \<le> squared_norm a + squared_norm b"
    unfolding squared_norm_def using len by (rule dot_le_norms)
  then show "dot_product (quantized a) (quantized b) \<le> 262144"
    using assms by linarith
  assume eq: "dot_product (quantized a) (quantized b) = 262144"
  with le assms have n: "squared_norm a = 262144" "squared_norm b = 262144" by linarith+
  with eq have "2 * dot_product (quantized a) (quantized b) =
      dot_product (quantized a) (quantized a) + dot_product (quantized b) (quantized b)"
    by (simp add: squared_norm_def)
  with len have "quantized a = quantized b" by (rule dot_eq_norms)
  then show "a = b \<and> squared_norm a = 262144" using n by (simp add: quantized_inj)
qed

text \<open>
  Claim C8, amended: when both descriptors of a cell have a squared L2 norm of at most
  \<open>512 * 512 = 262144\<close>, the entry lies in \<open>[0, 262144]\<close>, and it is 262144 only if the two
  descriptors are identical and have norm exactly 512.
\<close>

theorem distance_entry_bounded:
  assumes "ComputeSiftDistanceMatrix kp1 kp2 d1 d2 gf = Some m"
    and "descriptors_ok d1" and "descriptors_ok d2"
    and "i < length d1" and "j < length d2"
    and "squared_norm (d1 ! i) \<le> 262144" and "squared_norm (d2 ! j) \<le> 262144"
  shows "0 \<le> coeff m i j \<and> coeff m i j \<le> 262144 \<and>
         (coeff m i j = 262144 \<longrightarrow> d1 ! i = d2 ! j \<and> squared_norm (d1 ! i) = 262144)"
proof -
  let ?k = "dot_product (quantized (d1 ! i)) (quantized (d2 ! j))"
  have c: "coeff m i j = (if filter_rejects gf kp1 kp2 i j then 0 else ?k)"
    using ComputeSiftDistanceMatrix_coeff [OF assms(1,2,4,5)] by simp
  have l: "length (d1 ! i) = 128" "length (d2 ! j) = 128"
    using assms by (simp_all add: descriptors_ok_nth)
  have "0 \<le> ?k" using dot_product_bounds by simp
  moreover have "?k \<le> 262144" using dot_bounded_by_norms(1) [OF l assms(6,7)] .
  moreover have "?k = 262144 \<Longrightarrow> d1 ! i = d2 ! j \<and> squared_norm (d1 ! i) = 262144"
    using dot_bounded_by_norms(2) [OF l assms(6,7)] .
  ultimately show ?thesis using c by auto
qed

lemma dot_product_replicate:
  "dot_product (replicate n x) (replicate n y) = int n * (x * y)"
  by (induction n) (simp_all add: dot_product_def algebra_simps)

text \<open>
  Claim C8, as stated, bounds every entry by 262144 for all descriptors with entries in
  \<open>[0, 255]\<close>. It is false: two descriptors of 128 entries 255 give 8323200.
\<close>

theorem distance_entry_bound_counterexample:
  "descriptors_ok [replicate 128 255] \<and>
   map_option (\<lambda>m. coeff m 0 0)
     (ComputeSiftDistanceMatrix None None [replicate 128 255] [replicate 128 255] None)
   = Some 8323200"
proof -
  have ok: "descriptors_ok [replicate 128 255]" by (simp add: descriptors_ok_def)
  obtain m where m: "ComputeSiftDistanceMatrix None None [replicate 128 255] [replicate 128 255] None = Some m"
    by (simp add: ComputeSiftDistanceMatrix_def)
  have "coeff m 0 0 = dot_product (quantized (replicate 128 255)) (quantized (replicate 128 255))"
    using ComputeSiftDistanceMatrix_coeff [OF m ok, of 0 0] by (simp add: filter_rejects_def)
  also have "\<dots> = 8323200"
    by (simp add: quantized_def dot_product_replicate)
  finally show ?thesis using ok m by simp
qed


lemma ComputeSiftDistanceMatrix_returns:
  "filter_opt = None \<or>
   (keypoints1 = Some k1 \<and> keypoints2 = Some k2 \<and>
    length k1 = length descriptors1 \<and> length k2 = length descriptors2) \<Longrightarrow>
   \<exists>m. ComputeSiftDistanceMatrix keypoints1 keypoints2 descriptors1 descriptors2 filter_opt
        = Some m"
  by (auto simp: ComputeSiftDistanceMatrix_def split: option.splits)

text \<open>
  Claim C1: in the matrix that \<^verbatim>\<open>ComputeSiftDistanceMatrix\<close> returns, the entry of a cell
  \<open>(i, j)\<close> is 0 if a guided filter is supplied and returns true on the keypoint positions
  of the pair, and otherwise the integer dot product of quantized descriptor \<open>i\<close> of set 1
  and quantized descriptor \<open>j\<close> of set 2 (the 32-bit sum does not wrap around).
\<close>

theorem distance_matrix_entry:
  assumes "ComputeSiftDistanceMatrix kp1 kp2 d1 d2 gf = Some m"
    and "descriptors_ok d1" and "descriptors_ok d2"
    and "i < length d1" and "j < length d2"
  shows "rows m = length d1 \<and> cols m = length d2 \<and>
         coeff m i j = (if filter_rejects gf kp1 kp2 i j then 0
                        else dot_product (quantized (d1 ! i)) (quantized (d2 ! j)))"
  using assms(1,2,4,5) by (rule ComputeSiftDistanceMatrix_coeff)

theorem distance_matrix_entry_witness:
  "descriptors_ok [replicate 128 1, replicate 128 2] \<and> descriptors_ok [replicate 128 3] \<and>
   map_option (\<lambda>m. (coeff m 0 0, coeff m 1 0))
     (ComputeSiftDistanceMatrix
        (Some [\<lparr>kp_x = 5, kp_y = 0, kp_scale = 1, kp_orientation = 0\<rparr>,
               \<lparr>kp_x = 1, kp_y = 0, kp_scale = 1, kp_orientation = 0\<rparr>])
        (Some [\<lparr>kp_x = 2, kp_y = 0, kp_scale = 1, kp_orientation = 0\<rparr>])
        [replicate 128 1, replicate 128 2] [replicate 128 3]
        (Some (\<lambda>x1 y1 x2 y2. x1 > x2)))
   = Some (0, 768)"
proof -
  let ?k1 = "[\<lparr>kp_x = 5, kp_y = 0, kp_scale = 1, kp_orientation = 0\<rparr>,
              \<lparr>kp_x = 1, kp_y = 0, kp_scale = 1, kp_orientation = 0\<rparr>]"
  let ?k2 = "[\<lparr>kp_x = 2, kp_y = 0, kp_scale = 1, kp_orientation = 0\<rparr>]"
  let ?d1 = "[replicate 128 1, replicate 128 2] :: FeatureDescriptors"
  let ?d2 = "[replicate 128 3] :: FeatureDescriptors"
  let ?gf = "Some (\<lambda>x1 y1 x2 y2 :: real. x1 > x2)"
  have ok1: "descriptors_ok ?d1" and ok2: "descriptors_ok ?d2"
    by (simp_all add: descriptors_ok_def)
  obtain m where m: "ComputeSiftDistanceMatrix (Some ?k1) (Some ?k2) ?d1 ?d2 ?gf = Some m"
    by (simp add: ComputeSiftDistanceMatrix_def)
  have "coeff m 0 0 = 0"
    using distance_matrix_entry [OF m ok1 ok2, of 0 0] by (simp add: filter_rejects_def)
  moreover have "coeff m 1 0 = 768"
    using distance_matrix_entry [OF m ok1 ok2, of 1 0]
    by (simp add: filter_rejects_def quantized_def dot_product_replicate)
  ultimately show ?thesis using ok1 ok2 m by simp
qed

lemma unit_descriptor_norm:
  "squared_norm (replicate 16 128 @ replicate 112 0) = 262144"
  by code_simp

theorem distance_entry_bounded_witness:
  "descriptors_ok [replicate 16 128 @ replicate 112 0] \<and>
   squared_norm (replicate 16 128 @ replicate 112 0) \<le> 262144 \<and>
   map_option (\<lambda>m. coeff m 0 0)
     (ComputeSiftDistanceMatrix None None [replicate 16 128 @ replicate 112 0]
        [replicate 16 128 @ replicate 112 0] None) = Some 262144"
proof -
  let ?d = "[replicate 16 128 @ replicate 112 0] :: FeatureDescriptors"
  have ok: "descriptors_ok ?d" by (simp add: descriptors_ok_def)
  have n: "squared_norm (?d ! 0) \<le> 262144" by (simp add: unit_descriptor_norm)
  obtain m where m: "ComputeSiftDistanceMatrix None None ?d ?d None = Some m"
    by (simp add: ComputeSiftDistanceMatrix_def)
  have c: "coeff m 0 0 = 262144"
    using ComputeSiftDistanceMatrix_coeff [OF m ok, of 0 0] unit_descriptor_norm
    by (simp add: filter_rejects_def squared_norm_def)
  have "0 \<le> coeff m 0 0 \<and> coeff m 0 0 \<le> 262144 \<and>
        (coeff m 0 0 = 262144 \<longrightarrow> ?d ! 0 = ?d ! 0 \<and> squared_norm (?d ! 0) = 262144)"
    using distance_entry_bounded [OF m ok ok _ _ n n, of ] by simp
  then show ?thesis using ok m c unit_descriptor_norm by simp
qed

section \<open>The one-way selector and the bidirectional matcher\<close>

lemma fold_upt_Suc: "fold f [0..<Suc n] s = f n (fold f [0..<n] s)"
  by simp

lemma scan_step_inv:
  assumes inv: "scan_inv d i1 n (bi', b', s')"
  shows "scan_inv d i1 (Suc n) (scan_step d i1 n (bi', b', s'))"
proof -
  let ?c = "coeff d i1 n"
  from inv have s0: "0 \<le> s'" and sb: "s' \<le> b'"
    and le: "\<And>j. j < n \<Longrightarrow> coeff d i1 j \<le> b'"
    and best: "(bi' = - 1 \<and> b' = 0) \<or> (0 \<le> bi' \<and> bi' < int n \<and> coeff d i1 (nat bi') = b' \<and> 0 < b')"
    and others: "\<And>j. j < n \<Longrightarrow> int j \<noteq> bi' \<Longrightarrow> coeff d i1 j \<le> s'"
    and second: "s' = 0 \<or> (\<exists>j<n. int j \<noteq> bi' \<and> coeff d i1 j = s')"
    by (auto simp: scan_inv_def)
  from best have bi_ne: "bi' \<noteq> int n" by auto
  consider (new) "?c > b'" | (snd) "\<not> ?c > b'" "?c > s'" | (none) "\<not> ?c > b'" "\<not> ?c > s'"
    by blast
  then show ?thesis
  proof cases
    case new
    have st: "scan_step d i1 n (bi', b', s') = (int n, ?c, b')"
      using new by (simp add: scan_step_def)
    have 1: "0 \<le> b' \<and> b' \<le> ?c" using s0 sb new by simp
    have 2: "\<forall>j<Suc n. coeff d i1 j \<le> ?c"
      using le new by (auto simp: less_Suc_eq intro: order_trans less_imp_le)
    have 3: "0 \<le> int n \<and> int n < int (Suc n) \<and> coeff d i1 (nat (int n)) = ?c \<and> 0 < ?c"
      using 1 new by simp
    have 4: "\<forall>j<Suc n. int j \<noteq> int n \<longrightarrow> coeff d i1 j \<le> b'"
      using le by (auto simp: less_Suc_eq)
    have 5: "b' = 0 \<or> (\<exists>j<Suc n. int j \<noteq> int n \<and> coeff d i1 j = b')"
    proof (cases "b' = 0")
      case True then show ?thesis by simp
    next
      case False
      with best have b: "0 \<le> bi'" "bi' < int n" "coeff d i1 (nat bi') = b'" by auto
      then have "nat bi' < Suc n \<and> int (nat bi') \<noteq> int n \<and> coeff d i1 (nat bi') = b'"
        by simp
      then show ?thesis by blast
    qed
    show ?thesis unfolding st scan_inv_def using 1 2 3 4 5 by simp
  next
    case snd
    have st: "scan_step d i1 n (bi', b', s') = (bi', b', ?c)"
      using snd by (simp add: scan_step_def)
    have 1: "0 \<le> ?c \<and> ?c \<le> b'" using s0 snd by simp
    have 2: "\<forall>j<Suc n. coeff d i1 j \<le> b'"
      using le snd by (auto simp: less_Suc_eq)
    have 3: "(bi' = - 1 \<and> b' = 0) \<or>
             (0 \<le> bi' \<and> bi' < int (Suc n) \<and> coeff d i1 (nat bi') = b' \<and> 0 < b')"
      using best by auto
    have 4: "\<forall>j<Suc n. int j \<noteq> bi' \<longrightarrow> coeff d i1 j \<le> ?c"
    proof (intro allI impI)
      fix j assume j: "j < Suc n" "int j \<noteq> bi'"
      show "coeff d i1 j \<le> ?c"
      proof (cases "j = n")
        case True then show ?thesis by simp
      next
        case False
        with j have "coeff d i1 j \<le> s'" using others [of j] by simp
        then show ?thesis using snd by simp
      qed
    qed
    have "n < Suc n \<and> int n \<noteq> bi' \<and> coeff d i1 n = ?c" using bi_ne by simp
    then have 5: "?c = 0 \<or> (\<exists>j<Suc n. int j \<noteq> bi' \<and> coeff d i1 j = ?c)" by blast
    show ?thesis unfolding st scan_inv_def using 1 2 3 4 5 by simp
  next
    case none
    have st: "scan_step d i1 n (bi', b', s') = (bi', b', s')"
      using none by (simp add: scan_step_def)
    have 2: "\<forall>j<Suc n. coeff d i1 j \<le> b'"
      using le none by (auto simp: less_Suc_eq)
    have 3: "(bi' = - 1 \<and> b' = 0) \<or>
             (0 \<le> bi' \<and> bi' < int (Suc n) \<and> coeff d i1 (nat bi') = b' \<and> 0 < b')"
      using best by auto
    have 4: "\<forall>j<Suc n. int j \<noteq> bi' \<longrightarrow> coeff d i1 j \<le> s'"
      using others none by (auto simp: less_Suc_eq)
    have 5: "s' = 0 \<or> (\<exists>j<Suc n. int j \<noteq> bi' \<and> coeff d i1 j = s')"
      using second by (auto simp: less_Suc_eq)
    show ?thesis unfolding st scan_inv_def using s0 sb 2 3 4 5 by simp
  qed
qed

lemma scan_prefix_inv: "scan_inv d i1 n (fold (scan_step d i1) [0..<n] (- 1, 0, 0))"
proof (induction n)
  case 0
  show ?case by (simp add: scan_inv_def)
next
  case (Suc n)
  obtain bi' b' s' where prev: "fold (scan_step d i1) [0..<n] (- 1, 0, 0) = (bi', b', s')"
    by (metis prod_cases3)
  show ?case using scan_step_inv [of d i1 n bi' b' s'] Suc prev
    by (simp only: fold_upt_Suc)
qed

lemma scan_row_inv: "scan_inv d i1 (cols d) (scan_row d i1)"
  unfolding scan_row_def by (rule scan_prefix_inv)


lemma normed_angle_code:
  "arccos (min (kDistNorm * real_of_int b) 1) = normed_angle b"
  by (simp add: normed_angle_def kDistNorm_def)

lemma match_row_result:
  "match_row d r md i1 (num, ms) =
     (if row_result d r md i1 \<noteq> - 1 then (num + 1, ms[i1 := row_result d r md i1])
      else (num, ms))"
proof -
  obtain bi b s where sc: "scan_row d i1 = (bi, b, s)" by (metis prod_cases3)
  show ?thesis
    by (simp add: match_row_def row_result_def sc Let_def normed_angle_code not_less not_le)
qed

lemma outer_loop:
  "n \<le> R \<Longrightarrow>
   fold (match_row d r md) [0..<n] (0, replicate R (- 1)) =
     (length (filter (\<lambda>i. row_result d r md i \<noteq> - 1) [0..<n]),
      map (\<lambda>i. if i < n then row_result d r md i else - 1) [0..<R])"
proof (induction n)
  case 0
  show ?case by (simp add: map_replicate_const)
next
  case (Suc n)
  let ?ms = "map (\<lambda>i. if i < n then row_result d r md i else - 1) [0..<R]"
  let ?ms' = "map (\<lambda>i. if i < Suc n then row_result d r md i else - 1) [0..<R]"
  have n: "n < R" using Suc.prems by simp
  have upd: "?ms[n := row_result d r md n] = ?ms'"
    by (rule nth_equalityI) (auto simp: nth_list_update less_Suc_eq)
  have same: "row_result d r md n = - 1 \<Longrightarrow> ?ms = ?ms'"
    by (rule nth_equalityI) (auto simp: less_Suc_eq)
  have "fold (match_row d r md) [0..<Suc n] (0, replicate R (- 1)) =
        match_row d r md n (length (filter (\<lambda>i. row_result d r md i \<noteq> - 1) [0..<n]), ?ms)"
    using Suc.IH n by (simp only: fold_upt_Suc)
  also have "\<dots> = (length (filter (\<lambda>i. row_result d r md i \<noteq> - 1) [0..<Suc n]), ?ms')"
    using upd same by (simp add: match_row_result)
  finally show ?case .
qed

lemma FindBestMatchesOneWay_eq:
  "FindBestMatchesOneWay d r md [] =
     (length (filter (\<lambda>i. row_result d r md i \<noteq> - 1) [0..<rows d]),
      map (row_result d r md) [0..<rows d])"
proof -
  have "map (\<lambda>i. if i < rows d then row_result d r md i else - 1) [0..<rows d] =
        map (row_result d r md) [0..<rows d]"
    by (rule map_cong) simp_all
  then show ?thesis
    using outer_loop [of "rows d" "rows d" d r md]
    by (simp add: FindBestMatchesOneWay_def resize_def)
qed

lemma row_result_range:
  "row_result d r md i1 = - 1 \<or>
   (0 \<le> row_result d r md i1 \<and> row_result d r md i1 < int (cols d) \<and>
    0 < coeff d i1 (nat (row_result d r md i1)))"
proof -
  obtain bi b s where sc: "scan_row d i1 = (bi, b, s)" by (metis prod_cases3)
  have "scan_inv d i1 (cols d) (bi, b, s)" using scan_row_inv [of d i1] sc by simp
  then have "(bi = - 1 \<and> b = 0) \<or> (0 \<le> bi \<and> bi < int (cols d) \<and> coeff d i1 (nat bi) = b \<and> 0 < b)"
    by (simp add: scan_inv_def)
  then show ?thesis by (auto simp: row_result_def sc)
qed

lemma fold_push_forward:
  "fold (push_forward m12) [0..<n] [] =
     map (\<lambda>i1. \<lparr>point2D_idx1 = i1, point2D_idx2 = nat (m12 ! i1)\<rparr>)
         (filter (\<lambda>i1. m12 ! i1 \<noteq> - 1) [0..<n])"
  by (induction n) (simp_all add: push_forward_def)

lemma fold_push_cross:
  "fold (push_cross m12 m21) [0..<n] [] =
     map (\<lambda>i1. \<lparr>point2D_idx1 = i1, point2D_idx2 = nat (m12 ! i1)\<rparr>)
         (filter (\<lambda>i1. m12 ! i1 \<noteq> - 1 \<and> m21 ! nat (m12 ! i1) \<noteq> - 1 \<and>
                        m21 ! nat (m12 ! i1) = int i1) [0..<n])"
  by (induction n) (simp_all add: push_cross_def)

lemma FindBestMatches_forward:
  "FindBestMatches d r md False =
     map (\<lambda>i1. \<lparr>point2D_idx1 = i1, point2D_idx2 = nat (snd (FindBestMatchesOneWay d r md []) ! i1)\<rparr>)
         (filter (\<lambda>i1. snd (FindBestMatchesOneWay d r md []) ! i1 \<noteq> - 1) [0..<rows d])"
  by (simp add: FindBestMatches_def Let_def fold_push_forward FindBestMatchesOneWay_eq)

lemma FindBestMatches_cross:
  "FindBestMatches d r md True =
     map (\<lambda>i1. \<lparr>point2D_idx1 = i1, point2D_idx2 = nat (snd (FindBestMatchesOneWay d r md []) ! i1)\<rparr>)
         (filter (\<lambda>i1. snd (FindBestMatchesOneWay d r md []) ! i1 \<noteq> - 1 \<and>
                        snd (FindBestMatchesOneWay (transpose_m d) r md []) !
                          nat (snd (FindBestMatchesOneWay d r md []) ! i1) \<noteq> - 1 \<and>
                        snd (FindBestMatchesOneWay (transpose_m d) r md []) !
                          nat (snd (FindBestMatchesOneWay d r md []) ! i1) = int i1)
                 [0..<rows d])"
  by (simp add: FindBestMatches_def Let_def fold_push_cross FindBestMatchesOneWay_eq)

lemma forward_nth:
  "i1 < rows d \<Longrightarrow> snd (FindBestMatchesOneWay d r md []) ! i1 = row_result d r md i1"
  by (simp add: FindBestMatchesOneWay_eq)

lemma forward_length: "length (snd (FindBestMatchesOneWay d r md [])) = rows d"
  by (simp add: FindBestMatchesOneWay_eq)

lemma match_origin:
  assumes "m \<in> set (FindBestMatches d r md cc)"
  shows "\<exists>i1<rows d. row_result d r md i1 \<noteq> - 1 \<and>
           m = \<lparr>point2D_idx1 = i1, point2D_idx2 = nat (row_result d r md i1)\<rparr>"
proof (cases cc)
  case True
  with assms show ?thesis
    by (auto simp: FindBestMatches_cross forward_nth)
next
  case False
  with assms show ?thesis
    by (auto simp: FindBestMatches_forward forward_nth)
qed

lemma matched_positive:
  assumes "m \<in> set (FindBestMatches d r md cc)"
  shows "point2D_idx1 m < rows d \<and> point2D_idx2 m < cols d \<and>
         0 < coeff d (point2D_idx1 m) (point2D_idx2 m)"
proof -
  from match_origin [OF assms] obtain i1 where i1: "i1 < rows d" "row_result d r md i1 \<noteq> - 1"
    "m = \<lparr>point2D_idx1 = i1, point2D_idx2 = nat (row_result d r md i1)\<rparr>" by blast
  with row_result_range [of d r md i1] show ?thesis by auto
qed

lemma zero_row_unmatched:
  assumes "\<forall>j<cols d. coeff d i1 j = 0"
  shows "row_result d r md i1 = - 1"
proof (rule ccontr)
  assume "row_result d r md i1 \<noteq> - 1"
  with row_result_range [of d r md i1]
  have "0 \<le> row_result d r md i1" "row_result d r md i1 < int (cols d)"
    "0 < coeff d i1 (nat (row_result d r md i1))" by auto
  moreover from this assms have "coeff d i1 (nat (row_result d r md i1)) = 0" by simp
  ultimately show False by simp
qed

text \<open>
  Claim C6: whatever the matrix, the thresholds and the cross-check setting, every match
  that \<^verbatim>\<open>FindBestMatches\<close> emits is a cell of the matrix whose entry is not 0 (it is
  positive); in particular a row whose entries are all 0 is left unmatched, so a pair
  that the guided filter has set to 0 is never selected.
\<close>

theorem zero_entry_never_matched:
  "(\<forall>m \<in> set (FindBestMatches d r md cc).
      point2D_idx1 m < rows d \<and> point2D_idx2 m < cols d \<and>
      coeff d (point2D_idx1 m) (point2D_idx2 m) \<noteq> 0) \<and>
   ((\<forall>j<cols d. coeff d i1 j = 0) \<longrightarrow>
      (\<forall>m \<in> set (FindBestMatches d r md cc). point2D_idx1 m \<noteq> i1) \<and>
      (i1 < rows d \<longrightarrow> snd (FindBestMatchesOneWay d r md []) ! i1 = - 1))"
proof (intro conjI ballI impI)
  fix m assume m: "m \<in> set (FindBestMatches d r md cc)"
  from matched_positive [OF m]
  show "point2D_idx1 m < rows d" "point2D_idx2 m < cols d"
    "coeff d (point2D_idx1 m) (point2D_idx2 m) \<noteq> 0" by simp_all
next
  fix m assume z: "\<forall>j<cols d. coeff d i1 j = 0" and m: "m \<in> set (FindBestMatches d r md cc)"
  from matched_positive [OF m] z show "point2D_idx1 m \<noteq> i1" by auto
next
  assume z: "\<forall>j<cols d. coeff d i1 j = 0" and "i1 < rows d"
  then show "snd (FindBestMatchesOneWay d r md []) ! i1 = - 1"
    by (simp add: forward_nth zero_row_unmatched)
qed

text \<open>
  Claim C10: for the same matrix and thresholds, every match emitted with cross-check
  enabled is also emitted with cross-check disabled, with the same set-2 partner.
\<close>

theorem cross_check_subset:
  "set (FindBestMatches d r md True) \<subseteq> set (FindBestMatches d r md False)"
  unfolding FindBestMatches_cross FindBestMatches_forward by auto

text \<open>
  Claim C2: with cross-check enabled, the match \<open>(i1, i2)\<close> is emitted if and only if the
  forward selection gives \<open>forward[i1] = i2\<close> and the selection on the transposed matrix
  gives \<open>backward[i2] = i1\<close> (and it is emitted once); with cross-check disabled, the
  result is exactly one match \<open>(i1, forward[i1])\<close> for every row whose forward result is
  not -1, in row order.
\<close>

theorem bidirectional_matches:
  "(\<lparr>point2D_idx1 = i1, point2D_idx2 = i2\<rparr> \<in> set (FindBestMatches d r md True) \<longleftrightarrow>
      i1 < rows d \<and> i2 < cols d \<and>
      snd (FindBestMatchesOneWay d r md []) ! i1 = int i2 \<and>
      snd (FindBestMatchesOneWay (transpose_m d) r md []) ! i2 = int i1) \<and>
   distinct (FindBestMatches d r md True) \<and>
   FindBestMatches d r md False =
     map (\<lambda>i1. \<lparr>point2D_idx1 = i1,
                 point2D_idx2 = nat (snd (FindBestMatchesOneWay d r md []) ! i1)\<rparr>)
         (filter (\<lambda>i1. snd (FindBestMatchesOneWay d r md []) ! i1 \<noteq> - 1) [0..<rows d])"
proof (intro conjI)
  let ?fwd = "snd (FindBestMatchesOneWay d r md [])"
  let ?bwd = "snd (FindBestMatchesOneWay (transpose_m d) r md [])"
  show "\<lparr>point2D_idx1 = i1, point2D_idx2 = i2\<rparr> \<in> set (FindBestMatches d r md True) \<longleftrightarrow>
      i1 < rows d \<and> i2 < cols d \<and> ?fwd ! i1 = int i2 \<and> ?bwd ! i2 = int i1"
  proof
    assume m: "\<lparr>point2D_idx1 = i1, point2D_idx2 = i2\<rparr> \<in> set (FindBestMatches d r md True)"
    then have i1: "i1 < rows d" and i2: "i2 = nat (?fwd ! i1)" and ne: "?fwd ! i1 \<noteq> - 1"
      and bwd: "?bwd ! nat (?fwd ! i1) = int i1"
      by (auto simp: FindBestMatches_cross)
    from ne i1 row_result_range [of d r md i1]
    have "0 \<le> ?fwd ! i1" "?fwd ! i1 < int (cols d)" by (auto simp: forward_nth)
    then show "i1 < rows d \<and> i2 < cols d \<and> ?fwd ! i1 = int i2 \<and> ?bwd ! i2 = int i1"
      using i1 i2 bwd by auto
  next
    assume "i1 < rows d \<and> i2 < cols d \<and> ?fwd ! i1 = int i2 \<and> ?bwd ! i2 = int i1"
    then show "\<lparr>point2D_idx1 = i1, point2D_idx2 = i2\<rparr> \<in> set (FindBestMatches d r md True)"
      by (auto simp: FindBestMatches_cross image_iff)
  qed
  show "distinct (FindBestMatches d r md True)"
    unfolding FindBestMatches_cross by (simp add: distinct_map inj_on_def)
  show "FindBestMatches d r md False =
     map (\<lambda>i1. \<lparr>point2D_idx1 = i1, point2D_idx2 = nat (?fwd ! i1)\<rparr>)
         (filter (\<lambda>i1. ?fwd ! i1 \<noteq> - 1) [0..<rows d])"
    by (rule FindBestMatches_forward)
qed


lemma normed_angle_values:
  "normed_angle 262144 = 0" "normed_angle 131072 = pi / 3" "normed_angle 0 = pi / 2"
  by (simp_all add: normed_angle_def)

lemma normed_angle_nonneg: "0 \<le> b \<Longrightarrow> 0 \<le> normed_angle b"
  unfolding normed_angle_def by (rule arccos_lbound) simp_all

lemma pi_third_le_2: "pi / 3 \<le> 2"
  using pi_less_4 by simp

text \<open>
  When two different columns both hold the maximum of a row and it is positive, the scan
  ends with second-best equal to best.
\<close>

lemma tie_scan_equal:
  assumes "j1 < cols d" and "j2 < cols d" and "j1 \<noteq> j2"
    and "coeff d i1 j1 = V" and "coeff d i1 j2 = V" and "0 < V"
    and "\<forall>j<cols d. coeff d i1 j \<le> V"
  shows "\<exists>bi. scan_row d i1 = (bi, V, V)"
proof -
  obtain bi b s where sc: "scan_row d i1 = (bi, b, s)" by (metis prod_cases3)
  have inv: "scan_inv d i1 (cols d) (bi, b, s)" using scan_row_inv [of d i1] sc by simp
  then have sb: "s \<le> b" and le: "\<forall>j<cols d. coeff d i1 j \<le> b"
    and best: "(bi = - 1 \<and> b = 0) \<or> (0 \<le> bi \<and> bi < int (cols d) \<and> coeff d i1 (nat bi) = b \<and> 0 < b)"
    and others: "\<forall>j<cols d. int j \<noteq> bi \<longrightarrow> coeff d i1 j \<le> s"
    by (simp_all add: scan_inv_def)
  from le assms(1,4) have "V \<le> b" by auto
  with assms(6) best have b: "0 \<le> bi" "bi < int (cols d)" "coeff d i1 (nat bi) = b" by auto
  then have "nat bi < cols d" by simp
  with assms(7) b have "b \<le> V" by auto
  with \<open>V \<le> b\<close> have bV: "b = V" by simp
  have "int j1 \<noteq> bi \<or> int j2 \<noteq> bi" using assms(3) by auto
  with others assms(1,2,4,5) have "V \<le> s" by auto
  with sb bV have "s = V" by simp
  with sc bV show ?thesis by simp
qed

text \<open>
  Claim C3, amended: for a maximum ratio in \<open>(0, 1]\<close> and any maximum distance, a row
  whose best and second-best values are equal and positive is left unmatched.
\<close>

theorem tie_rejected:
  assumes "scan_row d i1 = (bi, b, s)" and "b = s" and "0 < b"
    and "0 < r" and "r \<le> 1" and "i1 < rows d"
  shows "snd (FindBestMatchesOneWay d r md []) ! i1 = - 1"
proof -
  have "0 \<le> normed_angle b" using assms(3) by (simp add: normed_angle_nonneg)
  then have "r * normed_angle b \<le> normed_angle b"
    using assms(5) mult_right_mono [of r 1 "normed_angle b"] by simp
  then have "row_result d r md i1 = - 1"
    using assms(1,2) by (simp add: row_result_def)
  then show ?thesis using assms(6) by (simp add: forward_nth)
qed

lemma tie_scan: "scan_row tie_dists 0 = (0, 131072, 131072)"
  by code_simp

lemma tie_rows: "rows tie_dists = 1"
  by (simp add: tie_dists_def matrix_of_def)

theorem tie_rejected_witness:
  "scan_row tie_dists 0 = (0, 131072, 131072) \<and>
   snd (FindBestMatchesOneWay tie_dists 1 2 []) ! 0 = - 1"
  using tie_rejected [OF tie_scan, where r = 1 and md = 2] by (simp add: tie_scan tie_rows)

text \<open>
  Claim C3, as stated, covers every positive maximum ratio. It is false for a ratio above
  1: the row \<open>[131072, 131072]\<close> has best = second-best = 131072 (angle \<open>pi / 3\<close>), and
  with maximum ratio 2 and maximum distance 2 the test \<open>pi / 3 \<ge> 2 * (pi / 3)\<close> fails, so
  the row is matched to column 0.
\<close>

theorem tie_counterexample:
  "scan_row tie_dists 0 = (0, 131072, 131072) \<and>
   FindBestMatchesOneWay tie_dists 2 2 [] = (1, [0])"
proof -
  have "row_result tie_dists 2 2 0 = 0"
    using pi_third_le_2 by (simp add: row_result_def tie_scan normed_angle_values)
  then show ?thesis
    by (simp add: FindBestMatchesOneWay_eq tie_rows tie_scan)
qed


text \<open>
  With the exact operations on the reals, the parametrised selector is the selector above.
\<close>

lemma match_row_exact: "match_row_f32 exact_ops d r md i1 st = match_row d r md i1 st"
proof -
  obtain num ms where st: "st = (num, ms)" by (cases st)
  obtain bi b s where sc: "scan_row d i1 = (bi, b, s)" by (metis prod_cases3)
  show ?thesis
    by (simp add: st sc match_row_f32_def match_row_def dist_normed_def std_min_def
          exact_ops_def min_def not_less not_le Let_def)
qed

lemma FindBestMatchesOneWay_exact:
  "FindBestMatchesOneWay_f32 exact_ops d r md ms = FindBestMatchesOneWay d r md ms"
proof -
  have "match_row_f32 exact_ops d r md = match_row d r md"
    by (intro ext) (rule match_row_exact)
  then show ?thesis by (simp add: FindBestMatchesOneWay_f32_def FindBestMatchesOneWay_def)
qed







lemma example_facts:
  "rows example_dists = 2" "cols example_dists = 2"
  "rows (transpose_m example_dists) = 2" "cols (transpose_m example_dists) = 2"
  by (simp_all add: example_dists_def matrix_of_def transpose_m_def)

lemma example_scans:
  "scan_row example_dists 0 = (0, 262144, 0)"
  "scan_row example_dists (Suc 0) = (0, 131072, 0)"
  "scan_row (transpose_m example_dists) 0 = (0, 262144, 131072)"
  "scan_row (transpose_m example_dists) (Suc 0) = (- 1, 0, 0)"
  by code_simp+

lemma upt_2: "[0..<2] = [0, Suc 0]"
  by (simp add: upt_rec)

lemma example_forward: "FindBestMatchesOneWay example_dists 1 2 [] = (2, [0, 0])"
  using pi_third_le_2
  by (simp add: FindBestMatchesOneWay_eq example_facts upt_2 row_result_def example_scans
        normed_angle_values)

lemma example_backward:
  "FindBestMatchesOneWay (transpose_m example_dists) 1 2 [] = (1, [0, - 1])"
  by (simp add: FindBestMatchesOneWay_eq example_facts upt_2 row_result_def example_scans
        normed_angle_values)

lemma example_cross:
  "FindBestMatches example_dists 1 2 True = [\<lparr>point2D_idx1 = 0, point2D_idx2 = 0\<rparr>]"
  by (simp add: FindBestMatches_cross example_forward example_backward example_facts upt_2)

lemma example_no_cross:
  "FindBestMatches example_dists 1 2 False =
     [\<lparr>point2D_idx1 = 0, point2D_idx2 = 0\<rparr>, \<lparr>point2D_idx1 = 1, point2D_idx2 = 0\<rparr>]"
  by (simp add: FindBestMatches_forward example_forward example_facts upt_2)

theorem bidirectional_matches_witness:
  "\<lparr>point2D_idx1 = 0, point2D_idx2 = 0\<rparr> \<in> set (FindBestMatches example_dists 1 2 True) \<and>
   \<lparr>point2D_idx1 = 1, point2D_idx2 = 0\<rparr> \<notin> set (FindBestMatches example_dists 1 2 True) \<and>
   FindBestMatches example_dists 1 2 False =
     [\<lparr>point2D_idx1 = 0, point2D_idx2 = 0\<rparr>, \<lparr>point2D_idx1 = 1, point2D_idx2 = 0\<rparr>]"
  using bidirectional_matches [of 0 0 example_dists 1 2]
    bidirectional_matches [of 1 0 example_dists 1 2]
  by (simp add: example_forward example_backward example_facts upt_2)

theorem cross_check_subset_witness:
  "FindBestMatches example_dists 1 2 True = [\<lparr>point2D_idx1 = 0, point2D_idx2 = 0\<rparr>] \<and>
   set (FindBestMatches example_dists 1 2 True) \<subseteq> set (FindBestMatches example_dists 1 2 False)"
  using cross_check_subset [of example_dists 1 2] by (simp add: example_cross)

theorem zero_entry_never_matched_witness:
  "cols (transpose_m example_dists) = 2 \<and>
   coeff (transpose_m example_dists) 1 0 = 0 \<and> coeff (transpose_m example_dists) 1 1 = 0 \<and>
   snd (FindBestMatchesOneWay (transpose_m example_dists) 1 2 []) ! 1 = - 1 \<and>
   FindBestMatches example_dists 1 2 False =
     [\<lparr>point2D_idx1 = 0, point2D_idx2 = 0\<rparr>, \<lparr>point2D_idx1 = 1, point2D_idx2 = 0\<rparr>] \<and>
   coeff example_dists 0 0 \<noteq> 0 \<and> coeff example_dists 1 0 \<noteq> 0"
proof -
  have z: "\<forall>j<cols (transpose_m example_dists). coeff (transpose_m example_dists) 1 j = 0"
    by (simp add: example_dists_def matrix_of_def transpose_m_def less_2_cases_iff)
  have "snd (FindBestMatchesOneWay (transpose_m example_dists) 1 2 []) ! 1 = - 1"
    using zero_entry_never_matched [of "transpose_m example_dists" 1 2 False 1] z
    by (simp add: example_facts)
  moreover have "coeff example_dists 0 0 \<noteq> 0 \<and> coeff example_dists 1 0 \<noteq> 0"
    using zero_entry_never_matched [of example_dists 1 2 False 0]
    by (simp add: example_no_cross)
  moreover have "coeff (transpose_m example_dists) 1 0 = 0 \<and>
      coeff (transpose_m example_dists) 1 1 = 0"
    by (simp add: example_dists_def matrix_of_def transpose_m_def)
  ultimately show ?thesis by (simp add: example_no_cross example_facts)
qed

section \<open>Guided matching\<close>

lemma select_none:
  "config g \<notin> {CALIBRATED, UNCALIBRATED, PLANAR, PANORAMIC, PLANAR_OR_PANORAMIC} \<Longrightarrow>
   select_guided_filter g mr = None"
  by (simp add: select_guided_filter_def)

text \<open>
  Claim C7: when the options pass \<^verbatim>\<open>Check\<close> and the classification is none of
  CALIBRATED, UNCALIBRATED, PLANAR, PANORAMIC and PLANAR_OR_PANORAMIC,
  \<^verbatim>\<open>MatchGuidedSiftFeaturesCPU\<close> returns normally with the two-view geometry, and so its
  inlier match list, exactly as it was.
\<close>

theorem guided_no_model_noop:
  assumes "Check match_options"
    and "config g \<notin> {CALIBRATED, UNCALIBRATED, PLANAR, PANORAMIC, PLANAR_OR_PANORAMIC}"
  shows "MatchGuidedSiftFeaturesCPU match_options keypoints1 keypoints2 descriptors1
           descriptors2 g = Some g"
  using assms by (simp add: MatchGuidedSiftFeaturesCPU_def select_none)

theorem guided_no_model_noop_witness:
  "Check example_options \<and>
   MatchGuidedSiftFeaturesCPU example_options [] [] [] []
     \<lparr>config = UNDEFINED, F = zero3, H = zero3,
      inlier_matches = [\<lparr>point2D_idx1 = 3, point2D_idx2 = 5\<rparr>]\<rparr>
   = Some \<lparr>config = UNDEFINED, F = zero3, H = zero3,
           inlier_matches = [\<lparr>point2D_idx1 = 3, point2D_idx2 = 5\<rparr>]\<rparr>"
proof -
  have c: "Check example_options" by (simp add: Check_def example_options_def)
  show ?thesis
    using c guided_no_model_noop [OF c, of "\<lparr>config = UNDEFINED, F = zero3, H = zero3,
      inlier_matches = [\<lparr>point2D_idx1 = 3, point2D_idx2 = 5\<rparr>]\<rparr>" "[]" "[]" "[]" "[]"]
    by simp
qed

end
